theory Spec2Isabelle
  imports Main
begin

section \<open>Positions, selections and documents\<close>

text \<open>
  The editor's value types. A position is a (line, character) pair of non-negative
  numbers; a selection is an (anchor, active) pair of positions. The comparison
  functions are those of the editor API: lexicographic on (line, character).
\<close>

record position =
  line :: nat
  character :: nat

definition isBefore :: "position \<Rightarrow> position \<Rightarrow> bool" where
  "isBefore p q = (line p < line q \<or> (line p = line q \<and> character p < character q))"

definition isEqual :: "position \<Rightarrow> position \<Rightarrow> bool" where
  "isEqual p q = (line p = line q \<and> character p = character q)"

definition isBeforeOrEqual :: "position \<Rightarrow> position \<Rightarrow> bool" where
  "isBeforeOrEqual p q = (line p < line q \<or> (line p = line q \<and> character p \<le> character q))"

definition isAfter :: "position \<Rightarrow> position \<Rightarrow> bool" where
  "isAfter p q = (\<not> isBeforeOrEqual p q)"

definition isAfterOrEqual :: "position \<Rightarrow> position \<Rightarrow> bool" where
  "isAfterOrEqual p q = (\<not> isBefore p q)"

record selection =
  anchor :: position
  active :: position

text \<open>
  \<open>start\<close> and \<open>end\<close> of a selection are the smaller and the larger of its two
  positions (\<open>end\<close> is written \<open>end_pos\<close>): the constructor of the editor's range
  class takes the first position as the start when it is before the second, and the
  second otherwise. A selection is empty when its two positions coincide. The editor's
  \<open>isReversed\<close> is \<open>anchor === end\<close>: the anchor is the end exactly when it is not
  before the active position, so an empty selection counts as reversed.
\<close>

definition start :: "selection \<Rightarrow> position" where
  "start s = (if isBefore (anchor s) (active s) then anchor s else active s)"

definition end_pos :: "selection \<Rightarrow> position" where
  "end_pos s = (if isBefore (anchor s) (active s) then active s else anchor s)"

definition isReversed :: "selection \<Rightarrow> bool" where
  "isReversed s = (\<not> isBefore (anchor s) (active s))"

definition isEmpty :: "selection \<Rightarrow> bool" where
  "isEmpty s = isEqual (anchor s) (active s)"

text \<open>
  A document is its list of line texts together with the text extraction function of
  the editor, which the selection engine only passes on to callbacks. Reading a line
  that does not exist throws; the model returns \<open>None\<close> there.
\<close>

record document =
  lineTexts :: "string list"
  getText :: "selection option \<Rightarrow> string"

definition lineCount :: "document \<Rightarrow> nat" where
  "lineCount d = length (lineTexts d)"

definition lineAt :: "document \<Rightarrow> nat \<Rightarrow> string option" where
  "lineAt d n = (if n < length (lineTexts d) then Some (lineTexts d ! n) else None)"

text \<open>
  Modelled from the spec: \<open>Lines.length\<close> lives in the module \<open>./lines\<close>, which is
  not among the sources. The spec's document adapter gives "line text/length", and the
  reversed one-character case of \<open>toCharacterMode\<close> compares the active character with
  "end of the prior line": the length of the text of the given line.
\<close>

definition Lines_length :: "nat \<Rightarrow> document \<Rightarrow> nat option" where
  "Lines_length n d = map_option length (lineAt d n)"

text \<open>A position lies in a document when its line exists and its character is at most
  the length of that line; a selection does when both its positions do.\<close>

definition validPosition :: "document \<Rightarrow> position \<Rightarrow> bool" where
  "validPosition d p = (line p < lineCount d \<and> character p \<le> length (lineTexts d ! line p))"

definition validSelection :: "document \<Rightarrow> selection \<Rightarrow> bool" where
  "validSelection d s = (validPosition d (anchor s) \<and> validPosition d (active s))"

section \<open>Selection algebra: the end of a selection\<close>

text \<open>\<open>Selections.endLine\<close>.\<close>

definition endLine :: "selection \<Rightarrow> nat" where
  "endLine sel =
     (let startLine = line (start sel);
          endp = end_pos sel;
          endLine = line endp;
          endCharacter = character endp
      in if startLine \<noteq> endLine \<and> endCharacter = 0 then endLine - 1 else endLine)"

text \<open>\<open>Selections.endPosition\<close>; \<open>None\<close> when \<open>document.lineAt\<close> throws.\<close>

definition endPosition :: "selection \<Rightarrow> document \<Rightarrow> position option" where
  "endPosition sel d =
     (let ln = endLine sel
      in if ln \<noteq> line (end_pos sel)
         then (case lineAt d ln of
                 None \<Rightarrow> None
               | Some t \<Rightarrow> Some \<lparr>line = ln, character = length t\<rparr>)
         else Some (end_pos sel))"

section \<open>Mode translator\<close>

text \<open>The body of the loop of \<open>Selections.toCharacterMode\<close>, for one selection.\<close>

definition toCharacterMode1 :: "document \<Rightarrow> selection \<Rightarrow> selection option" where
  "toCharacterMode1 d sel =
     (let selectionActive = active sel;
          selectionActiveLine = line selectionActive;
          selectionActiveCharacter = character selectionActive;
          selectionAnchor = anchor sel;
          selectionAnchorLine = line selectionAnchor;
          selectionAnchorCharacter = character selectionAnchor
      in if selectionAnchorLine = selectionActiveLine then
           (if selectionAnchorCharacter + 1 = selectionActiveCharacter then
              Some \<lparr>anchor = selectionAnchor, active = selectionAnchor\<rparr>
            else if int selectionAnchorCharacter - 1 = int selectionActiveCharacter then
              Some \<lparr>anchor = selectionActive, active = selectionActive\<rparr>
            else if selectionAnchorCharacter < selectionActiveCharacter then
              Some \<lparr>anchor = selectionAnchor,
                    active = \<lparr>line = selectionActiveLine,
                              character = selectionActiveCharacter - 1\<rparr>\<rparr>
            else Some sel)
         else if selectionAnchorLine < selectionActiveLine then
           (if selectionActiveCharacter > 0 then
              Some \<lparr>anchor = selectionAnchor,
                    active = \<lparr>line = selectionActiveLine,
                              character = selectionActiveCharacter - 1\<rparr>\<rparr>
            else
              (let activePrevLine = selectionActiveLine - 1
               in case lineAt d activePrevLine of
                    None \<Rightarrow> None
                  | Some t \<Rightarrow>
                      Some \<lparr>anchor = selectionAnchor,
                            active = \<lparr>line = activePrevLine, character = length t\<rparr>\<rparr>))
         else if selectionAnchorLine = selectionActiveLine + 1
                 \<and> selectionAnchorCharacter = 0 then
           (case Lines_length selectionActiveLine d of
              None \<Rightarrow> None
            | Some n \<Rightarrow>
                if selectionActiveCharacter = n
                then Some \<lparr>anchor = selectionActive, active = selectionActive\<rparr>
                else Some sel)
         else Some sel)"

text \<open>The loop: the selections are converted in order; an exception ends the call.\<close>

fun mapThrowing :: "('a \<Rightarrow> 'b option) \<Rightarrow> 'a list \<Rightarrow> 'b list option" where
  "mapThrowing f [] = Some []"
| "mapThrowing f (x # xs) =
     (case f x of
        None \<Rightarrow> None
      | Some y \<Rightarrow> (case mapThrowing f xs of None \<Rightarrow> None | Some ys \<Rightarrow> Some (y # ys)))"

definition toCharacterMode :: "selection list \<Rightarrow> document \<Rightarrow> selection list option" where
  "toCharacterMode sels d = mapThrowing (toCharacterMode1 d) sels"

text \<open>The body of the loop of \<open>Selections.fromCharacterMode\<close>, for one selection.\<close>

definition fromCharacterMode1 :: "document \<Rightarrow> selection \<Rightarrow> selection option" where
  "fromCharacterMode1 d sel =
     (let selectionActive = active sel;
          selectionActiveLine = line selectionActive;
          selectionActiveCharacter = character selectionActive;
          selectionAnchor = anchor sel;
          selectionAnchorLine = line selectionAnchor;
          selectionAnchorCharacter = character selectionAnchor;
          isEmptyOrForwardFacing =
            (selectionAnchorLine < selectionActiveLine
             \<or> (selectionAnchorLine = selectionActiveLine
                 \<and> selectionAnchorCharacter \<le> selectionActiveCharacter))
      in if isEmptyOrForwardFacing then
           (case lineAt d selectionActiveLine of
              None \<Rightarrow> None
            | Some t \<Rightarrow>
                (let lineLength = length t
                 in if selectionActiveCharacter = lineLength then
                      (if selectionActiveLine + 1 < lineCount d then
                         Some \<lparr>anchor = selectionAnchor,
                               active = \<lparr>line = selectionActiveLine + 1, character = 0\<rparr>\<rparr>
                       else Some sel)
                    else
                      Some \<lparr>anchor = selectionAnchor,
                            active = \<lparr>line = selectionActiveLine,
                                      character = selectionActiveCharacter + 1\<rparr>\<rparr>))
         else Some sel)"

definition fromCharacterMode :: "selection list \<Rightarrow> document \<Rightarrow> selection list option" where
  "fromCharacterMode sels d = mapThrowing (fromCharacterMode1 d) sels"

section \<open>Merge and normalize engine\<close>

text \<open>\<open>Selections.fromStartEnd\<close>, for arguments that are positions.\<close>

definition fromStartEnd :: "position \<Rightarrow> position \<Rightarrow> bool \<Rightarrow> selection" where
  "fromStartEnd startp endp reversed =
     (if reversed then \<lparr>anchor = endp, active = startp\<rparr>
      else \<lparr>anchor = startp, active = endp\<rparr>)"

text \<open>\<open>Selections.empty\<close> and \<open>Selections.fromAnchorActive\<close>, called with coordinates.\<close>

definition empty_at :: "nat \<Rightarrow> nat \<Rightarrow> selection" where
  "empty_at ln ch =
     (let positionOrLine = \<lparr>line = ln, character = ch\<rparr>
      in \<lparr>anchor = positionOrLine, active = positionOrLine\<rparr>)"

definition fromAnchorActive :: "nat \<Rightarrow> nat \<Rightarrow> nat \<Rightarrow> nat \<Rightarrow> selection" where
  "fromAnchorActive anchorLine anchorCharacter activeLine activeCharacter =
     \<lparr>anchor = \<lparr>line = anchorLine, character = anchorCharacter\<rparr>,
      active = \<lparr>line = activeLine, character = activeCharacter\<rparr>\<rparr>"

text \<open>
  The variables of \<open>mergeOverlappingSelections\<close> that its inner loop reads and writes.
  \<open>ignoreSelections\<close> is the byte array of flags, held as the set of the indices whose
  flag is 1; \<open>newSelections\<close> is \<open>None\<close> while the variable is \<open>undefined\<close>.
\<close>

record merge_state =
  aStart :: position
  aEnd :: position
  aIsEmpty :: bool
  changed :: bool
  ignoreSelections :: "nat set"
  newSelections :: "selection list option"

text \<open>
  The inner loop \<open>for (let j = i + 1; j < len; j++)\<close>. A \<open>continue\<close> is the call at
  \<open>j + 1\<close>; the assignment \<open>j = i\<close> at the end of the body is the call at \<open>i + 1\<close>.
\<close>

function mergeInner ::
  "bool \<Rightarrow> selection list \<Rightarrow> nat \<Rightarrow> nat \<Rightarrow> merge_state \<Rightarrow> merge_state" where
  "mergeInner alsoMergeConsecutiveSelections sels i j st =
     (if j < length sels then
        (if j \<in> ignoreSelections st then
           mergeInner alsoMergeConsecutiveSelections sels i (j + 1) st
         else
           (let b = sels ! j; bStart = start b; bEnd = end_pos b
            in if aIsEmpty st then
                 (if isEqual bStart bEnd then
                    (if isEqual bStart (aStart st) then
                       mergeInner alsoMergeConsecutiveSelections sels i (j + 1)
                         (st\<lparr>ignoreSelections := insert j (ignoreSelections st),
                             changed := True\<rparr>)
                     else mergeInner alsoMergeConsecutiveSelections sels i (j + 1) st)
                  else if isBeforeOrEqual bStart (aStart st) \<and> isAfterOrEqual bEnd bStart then
                    mergeInner alsoMergeConsecutiveSelections sels i (j + 1)
                      (st\<lparr>aStart := bStart, aEnd := bEnd, aIsEmpty := False,
                          changed := True,
                          ignoreSelections := insert j (ignoreSelections st)\<rparr>)
                  else mergeInner alsoMergeConsecutiveSelections sels i (j + 1) st)
               else if isAfterOrEqual (aStart st) bStart
                       \<and> (isBefore (aStart st) bEnd
                            \<or> (alsoMergeConsecutiveSelections \<and> isEqual (aStart st) bEnd)) then
                 (if isBeforeOrEqual (aEnd st) bEnd then
                    mergeInner alsoMergeConsecutiveSelections sels i (i + 1)
                      (st\<lparr>aStart := start b, aEnd := end_pos b, changed := True,
                          ignoreSelections := insert j (ignoreSelections st)\<rparr>)
                  else if isEqual (aStart st) bStart then
                    mergeInner alsoMergeConsecutiveSelections sels i (j + 1)
                      (st\<lparr>ignoreSelections := insert j (ignoreSelections st),
                          newSelections :=
                            (case newSelections st of
                               None \<Rightarrow> Some (take i sels)
                             | Some ns \<Rightarrow> Some ns)\<rparr>)
                  else
                    mergeInner alsoMergeConsecutiveSelections sels i (i + 1)
                      (st\<lparr>aStart := bStart, changed := True,
                          ignoreSelections := insert j (ignoreSelections st)\<rparr>))
               else if (isAfter (aEnd st) bStart
                         \<or> (alsoMergeConsecutiveSelections \<and> isEqual (aEnd st) bStart))
                       \<and> isBeforeOrEqual (aEnd st) bEnd then
                 mergeInner alsoMergeConsecutiveSelections sels i (i + 1)
                   (st\<lparr>aEnd := bEnd, changed := True,
                       ignoreSelections := insert j (ignoreSelections st)\<rparr>)
               else mergeInner alsoMergeConsecutiveSelections sels i (j + 1) st))
      else st)"
  by pat_completeness auto

termination mergeInner
proof -
  have pos: "0 < card ({..<n} - S)" if "j < n" and "j \<notin> S" for j n :: nat and S
  proof -
    from that have "j \<in> {..<n} - S" by simp
    moreover have "finite ({..<n} - S)" by simp
    ultimately show ?thesis by (metis card_gt_0_iff empty_iff)
  qed
  show ?thesis
    by (relation "measures
          [\<lambda>(c, sels, i, j, st). card ({..<length sels} - ignoreSelections st),
           \<lambda>(c, sels, i, j, st). length sels - j]")
       (auto simp: pos)
qed

declare mergeInner.simps [simp del]

text \<open>The body of the outer loop \<open>for (let i = 0; i < len; i++)\<close>, on the pair of
  \<open>ignoreSelections\<close> and \<open>newSelections\<close>.\<close>

definition mergeOuter ::
  "bool \<Rightarrow> selection list \<Rightarrow> nat \<Rightarrow> nat set \<times> selection list option
     \<Rightarrow> nat set \<times> selection list option" where
  "mergeOuter alsoMergeConsecutiveSelections sels i acc =
     (if i \<in> fst acc then acc
      else
        (let a = sels ! i;
             st = mergeInner alsoMergeConsecutiveSelections sels i (i + 1)
                    \<lparr>aStart = start a, aEnd = end_pos a,
                     aIsEmpty = isEqual (start a) (end_pos a), changed = False,
                     ignoreSelections = fst acc, newSelections = snd acc\<rparr>
         in if changed st then
              (ignoreSelections st,
               Some ((case newSelections st of None \<Rightarrow> take i sels | Some ns \<Rightarrow> ns)
                     @ [fromStartEnd (aStart st) (aEnd st) (isReversed a)]))
            else
              (case newSelections st of
                 Some ns \<Rightarrow> (ignoreSelections st, Some (ns @ [a]))
               | None \<Rightarrow> (ignoreSelections st, None))))"

definition mergeOverlappingSelections :: "selection list \<Rightarrow> bool \<Rightarrow> selection list" where
  "mergeOverlappingSelections sels alsoMergeConsecutiveSelections =
     (case snd (fold (mergeOuter alsoMergeConsecutiveSelections sels)
                  [0..<length sels] ({}, None)) of
        Some ns \<Rightarrow> ns
      | None \<Rightarrow> sels)"

definition mergeConsecutive :: "selection list \<Rightarrow> selection list" where
  "mergeConsecutive sels = mergeOverlappingSelections sels True"

section \<open>Editing context and committing a selection set\<close>

text \<open>
  The editing context owns the current document and the current selection set;
  \<open>revealed\<close> records the position last scrolled into view.
\<close>

record editor_context =
  document :: document
  selections :: "selection list"
  revealed :: "position option"

datatype error = EmptySelectionsError | NotASelectionError

text \<open>An element of an array handed to \<open>setSelections\<close>: a selection object, or any
  other value.\<close>

datatype element = ESelection selection | ENotSelection

text \<open>
  Modelled from the spec: \<open>NotASelectionError.throwIfNotASelectionArray\<close> lives in the
  module \<open>./errors\<close>, which is not among the sources. The spec's error table has
  EmptyResultingSet ("a commit would leave the SelectionSet empty") and
  InvalidSelectionInput ("argument is not a well-formed Selection array"), and the
  examples in the documentation of \<open>setSelections\<close> assert that \<open>setSelections([])\<close>
  throws \<open>EmptySelectionsError\<close> and \<open>setSelections([1])\<close> throws \<open>NotASelectionError\<close>.
  \<open>None\<close> means that nothing is thrown.
\<close>

definition throwIfNotASelectionArray :: "element list \<Rightarrow> error option" where
  "throwIfNotASelectionArray xs =
     (if xs = [] then Some EmptySelectionsError
      else if ENotSelection \<in> set xs then Some NotASelectionError
      else None)"

fun selectionOf :: "element \<Rightarrow> selection option" where
  "selectionOf (ESelection s) = Some s"
| "selectionOf ENotSelection = None"

text \<open>\<open>revealSelections\<close>, called with a selection: its active position is revealed.\<close>

definition revealSelections :: "selection \<Rightarrow> editor_context \<Rightarrow> editor_context" where
  "revealSelections sel ctx = ctx\<lparr>revealed := Some (active sel)\<rparr>"

text \<open>
  \<open>setSelections\<close>: the check comes first, then the assignment to the context, then
  the reveal of the first selection. The result is what the call returns or throws,
  together with the context as the call leaves it.
\<close>

definition setSelections ::
  "element list \<Rightarrow> editor_context \<Rightarrow> (error + selection list) \<times> editor_context" where
  "setSelections xs ctx =
     (case throwIfNotASelectionArray xs of
        Some e \<Rightarrow> (Inl e, ctx)
      | None \<Rightarrow>
          (let sels = List.map_filter selectionOf xs;
               ctx1 = ctx\<lparr>selections := sels\<rparr>
           in (Inr sels, revealSelections (hd sels) ctx1)))"

section \<open>Batch transform runner\<close>

text \<open>
  A batch operation returns its array at once, or a thenable that resolves to the
  array. Modelled from the spec: \<open>context.then\<close> lives in the module \<open>./context\<close>,
  which is not among the sources; the spec calls it the "schedule continuation after
  suspended value" primitive, so \<open>Suspended x\<close> stands for the thenable whose
  continuation has produced \<open>x\<close>.
\<close>

datatype 'a outcome = Immediate 'a | Suspended 'a

text \<open>Reading an array by index: \<open>undefined\<close> out of range.\<close>

definition at :: "'a list \<Rightarrow> nat \<Rightarrow> 'a option" where
  "at xs i = (if i < length xs then Some (xs ! i) else None)"

subsection \<open>filter\<close>

text \<open>What a predicate returns: a boolean, or a thenable that resolves to one.\<close>

datatype presult = PBoolean bool | PThenable bool

text \<open>An element of the array that \<open>filterSelections.byIndex\<close> returns.\<close>

datatype fitem = FSelection selection | FBoolean bool | FUndefined

fun fitemOf :: "selection option \<Rightarrow> fitem" where
  "fitemOf None = FUndefined"
| "fitemOf (Some s) = FSelection s"

text \<open>The truth value of a result used as a condition: a thenable is an object, and
  every object is truthy.\<close>

fun truthy :: "presult \<Rightarrow> bool" where
  "truthy (PBoolean b) = b"
| "truthy (PThenable v) = True"

text \<open>What \<open>Promise.all\<close> makes of an entry: the value itself, or the value a thenable
  resolves to.\<close>

fun settledBool :: "presult \<Rightarrow> bool" where
  "settledBool (PBoolean b) = b"
| "settledBool (PThenable v) = v"

definition filterSelections_byIndex ::
  "(nat \<Rightarrow> selection option \<Rightarrow> document \<Rightarrow> presult) \<Rightarrow> selection list option
     \<Rightarrow> editor_context \<Rightarrow> fitem list outcome" where
  "filterSelections_byIndex predicate selectionsArg ctx =
     (let doc = document ctx;
          sels = (case selectionsArg of None \<Rightarrow> selections ctx | Some xs \<Rightarrow> xs);
          firstSelection = at sels 0;
          firstResult = predicate 0 firstSelection doc
      in case firstResult of
           PBoolean b \<Rightarrow>
             if length sels = 1 then Immediate (if b then [FBoolean b] else [])
             else
               Immediate
                 (fold (\<lambda>i resultingSelections.
                          if truthy (predicate i (at sels i) doc)
                          then resultingSelections @ [fitemOf (at sels i)]
                          else resultingSelections)
                    [1..<length sels]
                    (if b then [fitemOf firstSelection] else []))
         | PThenable v \<Rightarrow>
             if length sels = 1 then Suspended (if v then [fitemOf firstSelection] else [])
             else
               (let promises = firstResult # map (\<lambda>i. predicate i (at sels i) doc)
                                               [1..<length sels];
                    savedSelections = sels;
                    results = map settledBool promises
                in Suspended
                     (fold (\<lambda>i resultingSelections.
                              if results ! i
                              then resultingSelections @ [fitemOf (at savedSelections i)]
                              else resultingSelections)
                        [0..<length results] [])))"

definition filterSelections ::
  "(string \<Rightarrow> selection option \<Rightarrow> nat \<Rightarrow> presult) \<Rightarrow> selection list option
     \<Rightarrow> editor_context \<Rightarrow> fitem list outcome" where
  "filterSelections predicate selectionsArg ctx =
     filterSelections_byIndex (\<lambda>i sel doc. predicate (getText doc sel) sel i)
       selectionsArg ctx"

subsection \<open>map\<close>

text \<open>What a mapper returns: \<open>undefined\<close>, a value, or a thenable that resolves to
  \<open>undefined\<close> (\<open>None\<close>) or to a value. The arrays of \<open>mapSelections.byIndex\<close> hold
  the same kind of elements.\<close>

datatype 'a mresult = Undefined | Value 'a | Thenable "'a option"

fun settled :: "'a mresult \<Rightarrow> 'a option" where
  "settled Undefined = None"
| "settled (Value x) = Some x"
| "settled (Thenable v) = v"

definition mapSelections_byIndex ::
  "(nat \<Rightarrow> selection option \<Rightarrow> document \<Rightarrow> 'a mresult) \<Rightarrow> selection list option
     \<Rightarrow> editor_context \<Rightarrow> 'a mresult list outcome" where
  "mapSelections_byIndex f selectionsArg ctx =
     (let doc = document ctx;
          sels = (case selectionsArg of None \<Rightarrow> selections ctx | Some xs \<Rightarrow> xs);
          firstSelection = at sels 0;
          firstResult = f 0 firstSelection doc
      in case firstResult of
           Thenable v \<Rightarrow>
             if length sels = 1
             then Suspended (case v of Some r \<Rightarrow> [Value r] | None \<Rightarrow> [])
             else
               (let promises = firstResult # map (\<lambda>i. f i (at sels i) doc)
                                               [1..<length sels];
                    results = map settled promises
                in Suspended
                     (fold (\<lambda>i filteredResults.
                              case results ! i of
                                Some r \<Rightarrow> filteredResults @ [Value r]
                              | None \<Rightarrow> filteredResults)
                        [0..<length results] []))
         | _ \<Rightarrow>
             Immediate
               (fold (\<lambda>i results.
                        case f i (at sels i) doc of
                          Undefined \<Rightarrow> results
                        | v \<Rightarrow> results @ [v])
                  [1..<length sels]
                  (case firstResult of Undefined \<Rightarrow> [] | v \<Rightarrow> [v])))"

definition mapSelections ::
  "(string \<Rightarrow> selection option \<Rightarrow> nat \<Rightarrow> 'a mresult) \<Rightarrow> selection list option
     \<Rightarrow> editor_context \<Rightarrow> 'a mresult list outcome" where
  "mapSelections f selectionsArg ctx =
     mapSelections_byIndex (\<lambda>i sel doc. f (getText doc sel) sel i) selectionsArg ctx"

subsection \<open>update\<close>

fun elementOf :: "selection mresult \<Rightarrow> element" where
  "elementOf (Value s) = ESelection s"
| "elementOf Undefined = ENotSelection"
| "elementOf (Thenable v) = ENotSelection"

text \<open>\<open>updateSelections\<close>: \<open>contextArg\<close> is the optional context argument, \<open>current\<close> is
  \<open>Context.current\<close>. The result holds the context that the call targets: the
  argument when it is given, the current context otherwise.\<close>

definition updateSelections ::
  "(string \<Rightarrow> selection option \<Rightarrow> nat \<Rightarrow> selection mresult) \<Rightarrow> editor_context option
     \<Rightarrow> editor_context \<Rightarrow> ((error + selection list) \<times> editor_context) outcome" where
  "updateSelections f contextArg current =
     (let target = (case contextArg of None \<Rightarrow> current | Some c \<Rightarrow> c)
      in case mapSelections f (map_option selections contextArg) current of
           Immediate xs \<Rightarrow> Immediate (setSelections (map elementOf xs) target)
         | Suspended xs \<Rightarrow> Suspended (setSelections (map elementOf xs) target))"

subsection \<open>withFallback\<close>

text \<open>A defined result of a function passed to \<open>withFallback\<close>: a selection, or a
  one-element array holding a fallback selection.\<close>

datatype sel_or_fallback = Sel selection | Fallback selection

fun isFallbackArray :: "sel_or_fallback mresult \<Rightarrow> bool" where
  "isFallbackArray (Value (Fallback s)) = True"
| "isFallbackArray v = False"

fun isOtherDefined :: "sel_or_fallback mresult \<Rightarrow> bool" where
  "isOtherDefined (Value (Fallback s)) = False"
| "isOtherDefined Undefined = False"
| "isOtherDefined v = True"

fun asElement :: "sel_or_fallback mresult \<Rightarrow> element" where
  "asElement (Value (Sel s)) = ESelection s"
| "asElement (Value (Fallback s)) = ESelection s"
| "asElement v = ENotSelection"

definition mapFallbackSelections :: "sel_or_fallback mresult list \<Rightarrow> element list" where
  "mapFallbackSelections vals =
     (let selectionsCount = length (filter isOtherDefined vals);
          fallbackSelectionsCount = length (filter isFallbackArray vals)
      in if selectionsCount > 0 then map asElement (filter isOtherDefined vals)
         else if fallbackSelectionsCount > 0 then map asElement (filter isFallbackArray vals)
         else [])"

definition withFallback ::
  "(string \<Rightarrow> selection option \<Rightarrow> nat \<Rightarrow> sel_or_fallback mresult) \<Rightarrow> editor_context
     \<Rightarrow> ((error + selection list) \<times> editor_context) outcome" where
  "withFallback f current =
     (case mapSelections f None current of
        Immediate xs \<Rightarrow> Immediate (setSelections (mapFallbackSelections xs) current)
      | Suspended xs \<Rightarrow> Suspended (setSelections (mapFallbackSelections xs) current))"

section \<open>Ordering utilities\<close>

text \<open>The remainder operator \<open>%\<close> on integers: the result has the sign of the
  dividend.\<close>

definition js_rem :: "int \<Rightarrow> int \<Rightarrow> int" where
  "js_rem a b = sgn a * (\<bar>a\<bar> mod \<bar>b\<bar>)"

text \<open>
  \<open>rotateSelections\<close>, for an integer \<open>by\<close>. The new array is created with \<open>len\<close> holes
  (\<open>None\<close>) and written by index. For an empty array \<open>by % len\<close> is \<open>NaN\<close>, which
  differs from \<open>len\<close>, and the loop does not run: the empty new array is returned.
\<close>

definition rotateSelections :: "int \<Rightarrow> selection list \<Rightarrow> selection option list" where
  "rotateSelections byArg sels =
     (let len = int (length sels)
      in if len = 0 then []
         else
           (let by1 = js_rem byArg len + len
            in if by1 = len then map Some sels
               else
                 fold (\<lambda>i newSelections.
                         newSelections[nat (js_rem (int i + by1) len) := Some (sels ! i)])
                   [0..<length sels] (replicate (length sels) None)))"

section \<open>Notions used to state the properties\<close>

text \<open>A text extraction function for example documents whose text plays no role.\<close>

definition noText :: "selection option \<Rightarrow> string" where
  "noText s = []"

text \<open>Converting to character mode and back, as one call after the other.\<close>

definition roundTrip :: "selection list \<Rightarrow> document \<Rightarrow> selection list option" where
  "roundTrip sels d =
     (case toCharacterMode sels d of None \<Rightarrow> None | Some cs \<Rightarrow> fromCharacterMode cs d)"

text \<open>The absolute end of the buffer: the end of the last line.\<close>

definition lastPosition :: "document \<Rightarrow> position" where
  "lastPosition d = \<lparr>line = lineCount d - 1, character = length (last (lineTexts d))\<rparr>"

text \<open>The span of a selection: its start and its end, whatever its direction.\<close>

definition span :: "selection \<Rightarrow> position \<times> position" where
  "span s = (start s, end_pos s)"

text \<open>An editing context over a one-line document, for examples.\<close>

definition exampleContext :: "selection list \<Rightarrow> editor_context" where
  "exampleContext sels =
     \<lparr>document = \<lparr>lineTexts = [''foo 123''], getText = noText\<rparr>,
      selections = sels, revealed = None\<rparr>"

text \<open>The array of a batch operation once all results are available.\<close>

fun outcomeValue :: "'a outcome \<Rightarrow> 'a" where
  "outcomeValue (Immediate x) = x"
| "outcomeValue (Suspended x) = x"

text \<open>The defined entries of a list of settled results, in order.\<close>

fun somes :: "'a option list \<Rightarrow> 'a list" where
  "somes [] = []"
| "somes (None # xs) = somes xs"
| "somes (Some x # xs) = x # somes xs"

text \<open>Whether a call returned a suspended result.\<close>

fun isThenable :: "'a mresult \<Rightarrow> bool" where
  "isThenable (Thenable v) = True"
| "isThenable v = False"

text \<open>The indices at which a batch operation calls its function: index 0 always, then
  1 to N - 1.\<close>

definition calledAt :: "selection list \<Rightarrow> nat list" where
  "calledAt sels = 0 # [1..<length sels]"

text \<open>The results of the calls that \<open>mapSelections\<close> makes on the current selections
  of a context.\<close>

definition textResults ::
  "(string \<Rightarrow> selection option \<Rightarrow> nat \<Rightarrow> 'a mresult) \<Rightarrow> editor_context \<Rightarrow> 'a mresult list" where
  "textResults f ctx =
     map (\<lambda>i. f (getText (document ctx) (at (selections ctx) i)) (at (selections ctx) i) i)
       (calledAt (selections ctx))"

text \<open>The all-synchronous equivalent of a per-index function: each suspended result
  is replaced by the value it resolves to.\<close>

definition syncEquivalent ::
  "(nat \<Rightarrow> selection option \<Rightarrow> document \<Rightarrow> 'a mresult) \<Rightarrow> nat \<Rightarrow> selection option \<Rightarrow> document \<Rightarrow> 'a mresult" where
  "syncEquivalent f i sel doc = (case settled (f i sel doc) of None \<Rightarrow> Undefined | Some x \<Rightarrow> Value x)"

text \<open>The real selections and the fallback selections among defined results, in
  order.\<close>

fun realSelections :: "sel_or_fallback list \<Rightarrow> selection list" where
  "realSelections [] = []"
| "realSelections (Sel s # xs) = s # realSelections xs"
| "realSelections (Fallback s # xs) = realSelections xs"

fun fallbackSelections :: "sel_or_fallback list \<Rightarrow> selection list" where
  "fallbackSelections [] = []"
| "fallbackSelections (Sel s # xs) = fallbackSelections xs"
| "fallbackSelections (Fallback s # xs) = s # fallbackSelections xs"

text \<open>Whether a result is not \<open>undefined\<close>.\<close>

fun isDefined :: "'a mresult \<Rightarrow> bool" where
  "isDefined Undefined = False"
| "isDefined v = True"

text \<open>An example function for \<open>withFallback\<close>: an immediate fallback selection at
  index 0, a suspended fallback selection at every other index.\<close>

definition mixedFallbacks :: "string \<Rightarrow> selection option \<Rightarrow> nat \<Rightarrow> sel_or_fallback mresult" where
  "mixedFallbacks text sel i =
     (if i = 0 then Value (Fallback (empty_at 0 0))
      else Thenable (Some (Fallback (empty_at 0 4))))"

text \<open>A successful commit of a non-empty selection list: the list is returned, it is
  the context's selection set, and its first selection is revealed.\<close>

definition committed :: "selection list \<Rightarrow> editor_context \<Rightarrow> (error + selection list) \<times> editor_context" where
  "committed sels ctx = (Inr sels, ctx\<lparr>selections := sels, revealed := Some (active (hd sels))\<rparr>)"

section \<open>Auxiliary facts\<close>

lemma mapThrowing_Some_map:
  "mapThrowing f xs = Some ys \<Longrightarrow> length ys = length xs \<and> (\<forall>i<length xs. f (xs ! i) = Some (ys ! i))"
proof (induction xs arbitrary: ys)
  case Nil
  then show ?case by simp
next
  case (Cons x xs)
  then obtain y ys' where y: "f x = Some y" and r: "mapThrowing f xs = Some ys'" and e: "ys = y # ys'"
    by (auto split: option.splits)
  from Cons.IH[OF r] have "length ys' = length xs" and "\<forall>i<length xs. f (xs ! i) = Some (ys' ! i)"
    by simp_all
  with y e show ?case by (auto simp: nth_Cons split: nat.splits)
qed

lemma mapThrowing_total:
  "(\<forall>x\<in>set xs. \<exists>y. f x = Some y) \<Longrightarrow> \<exists>ys. mapThrowing f xs = Some ys"
  by (induction xs) auto

lemma fromCharacterMode1_anchor:
  "fromCharacterMode1 d s = Some t \<Longrightarrow> anchor t = anchor s"
  by (auto simp: fromCharacterMode1_def Let_def split: if_splits option.splits)

lemma fromCharacterMode1_total:
  "line (active s) < lineCount d \<Longrightarrow> \<exists>t. fromCharacterMode1 d s = Some t"
  by (auto simp: fromCharacterMode1_def Let_def lineAt_def lineCount_def)

lemma selection_eqI: "anchor t = anchor s \<Longrightarrow> active t = active s \<Longrightarrow> t = (s::selection)"
  by simp

lemma position_eqI: "line p = line q \<Longrightarrow> character p = character q \<Longrightarrow> p = (q::position)"
  by simp

lemma roundTrip1:
  assumes v: "validSelection d s" and f: "isBefore (anchor s) (active s)"
  shows "\<exists>c. toCharacterMode1 d s = Some c \<and> fromCharacterMode1 d c = Some s"
proof -
  from v have la: "line (anchor s) < length (lineTexts d)"
    and ca: "character (anchor s) \<le> length (lineTexts d ! line (anchor s))"
    and lb: "line (active s) < length (lineTexts d)"
    and cb: "character (active s) \<le> length (lineTexts d ! line (active s))"
    by (simp_all add: validSelection_def validPosition_def lineCount_def)
  have "(line (anchor s) = line (active s) \<and> character (anchor s) + 1 = character (active s))
      \<or> (line (anchor s) = line (active s) \<and> character (anchor s) + 1 < character (active s))
      \<or> (line (anchor s) < line (active s) \<and> 0 < character (active s))
      \<or> (line (anchor s) < line (active s) \<and> character (active s) = 0)"
    using f unfolding isBefore_def by linarith
  then consider (one) "line (anchor s) = line (active s)" "character (anchor s) + 1 = character (active s)"
    | (many) "line (anchor s) = line (active s)" "character (anchor s) + 1 < character (active s)"
    | (cross) "line (anchor s) < line (active s)" "0 < character (active s)"
    | (break) "line (anchor s) < line (active s)" "character (active s) = 0"
    by blast
  then show ?thesis
  proof cases
    case one
    have t: "toCharacterMode1 d s = Some \<lparr>anchor = anchor s, active = anchor s\<rparr>"
      using one by (simp add: toCharacterMode1_def Let_def)
    have "fromCharacterMode1 d \<lparr>anchor = anchor s, active = anchor s\<rparr> = Some s"
      using one la ca cb
      by (auto simp: fromCharacterMode1_def Let_def lineAt_def lineCount_def
               intro!: selection_eqI position_eqI)
    with t show ?thesis by simp
  next
    case many
    have t: "toCharacterMode1 d s = Some \<lparr>anchor = anchor s,
               active = \<lparr>line = line (active s), character = character (active s) - 1\<rparr>\<rparr>"
      using many by (simp add: toCharacterMode1_def Let_def)
    have "fromCharacterMode1 d \<lparr>anchor = anchor s,
               active = \<lparr>line = line (active s), character = character (active s) - 1\<rparr>\<rparr> = Some s"
      using many lb cb
      by (auto simp: fromCharacterMode1_def Let_def lineAt_def lineCount_def
               intro!: selection_eqI position_eqI)
    with t show ?thesis by simp
  next
    case cross
    have t: "toCharacterMode1 d s = Some \<lparr>anchor = anchor s,
               active = \<lparr>line = line (active s), character = character (active s) - 1\<rparr>\<rparr>"
      using cross by (simp add: toCharacterMode1_def Let_def)
    have "fromCharacterMode1 d \<lparr>anchor = anchor s,
               active = \<lparr>line = line (active s), character = character (active s) - 1\<rparr>\<rparr> = Some s"
      using cross lb cb
      by (auto simp: fromCharacterMode1_def Let_def lineAt_def lineCount_def
               intro!: selection_eqI position_eqI)
    with t show ?thesis by simp
  next
    case break
    let ?p = "line (active s) - 1"
    have pl: "?p < length (lineTexts d)" using lb by simp
    have t: "toCharacterMode1 d s = Some \<lparr>anchor = anchor s,
               active = \<lparr>line = ?p, character = length (lineTexts d ! ?p)\<rparr>\<rparr>"
      using break pl by (simp add: toCharacterMode1_def Let_def lineAt_def)
    have fw: "line (anchor s) < ?p \<or> (line (anchor s) = ?p \<and> character (anchor s) \<le> length (lineTexts d ! ?p))"
      using break ca by (cases "line (anchor s) = ?p") auto
    have "fromCharacterMode1 d \<lparr>anchor = anchor s,
               active = \<lparr>line = ?p, character = length (lineTexts d ! ?p)\<rparr>\<rparr> = Some s"
      using break lb pl fw
      by (auto simp: fromCharacterMode1_def Let_def lineAt_def lineCount_def
               intro!: selection_eqI position_eqI)
    with t show ?thesis by simp
  qed
qed

lemma mapThrowing_roundTrip:
  "(\<forall>x\<in>set xs. \<exists>c. f x = Some c \<and> g c = Some x) \<Longrightarrow>
     \<exists>cs. mapThrowing f xs = Some cs \<and> mapThrowing g cs = Some xs"
  by (induction xs) auto

lemma somes_append: "somes (xs @ ys) = somes xs @ somes ys"
  by (induction xs rule: somes.induct) simp_all

lemma fold_settled_results:
  "fold (\<lambda>i acc. case rs ! i of Some r \<Rightarrow> acc @ [Value r] | None \<Rightarrow> acc) [0..<length rs] []
     = map Value (somes rs)"
proof (induction rs rule: rev_induct)
  case Nil
  then show ?case by simp
next
  case (snoc x rs)
  have "fold (\<lambda>i acc. case (rs @ [x]) ! i of Some r \<Rightarrow> acc @ [Value r] | None \<Rightarrow> acc) [0..<length rs] []
      = fold (\<lambda>i acc. case rs ! i of Some r \<Rightarrow> acc @ [Value r] | None \<Rightarrow> acc) [0..<length rs] []"
    by (rule fold_cong) (simp_all add: nth_append)
  with snoc show ?case
    by (cases x) (simp_all add: somes_append)
qed

lemma fold_immediate_results:
  "\<forall>i\<in>set is. \<not> isThenable (F i) \<Longrightarrow>
     fold (\<lambda>i results. case F i of Undefined \<Rightarrow> results | v \<Rightarrow> results @ [v]) is acc
       = acc @ map Value (somes (map (\<lambda>i. settled (F i)) is))"
proof (induction "is" arbitrary: acc)
  case Nil
  then show ?case by simp
next
  case (Cons i "is")
  then show ?case by (cases "F i") simp_all
qed

lemma mapSelections_byIndex_array:
  fixes f :: "nat \<Rightarrow> selection option \<Rightarrow> document \<Rightarrow> 'a mresult"
  assumes sels: "(case selectionsArg of None \<Rightarrow> selections ctx | Some xs \<Rightarrow> xs) = sels"
    and "isThenable (f 0 (at sels 0) (document ctx))
           \<or> (\<forall>i\<in>set (calledAt sels). \<not> isThenable (f i (at sels i) (document ctx)))"
  shows "outcomeValue (mapSelections_byIndex f selectionsArg ctx)
           = map Value (somes (map (\<lambda>i. settled (f i (at sels i) (document ctx))) (calledAt sels)))"
proof (cases "f 0 (at sels 0) (document ctx)")
  case Undefined
  with assms have imm: "\<forall>i\<in>set [1..<length sels]. \<not> isThenable (f i (at sels i) (document ctx))"
    by (simp add: calledAt_def)
  show ?thesis
    using Undefined fold_immediate_results[OF imm, of "[]"]
    by (simp add: mapSelections_byIndex_def calledAt_def sels)
next
  case (Value x)
  with assms have imm: "\<forall>i\<in>set [1..<length sels]. \<not> isThenable (f i (at sels i) (document ctx))"
    by (simp add: calledAt_def)
  show ?thesis
    using Value fold_immediate_results[OF imm, of "[Value x]"]
    by (simp add: mapSelections_byIndex_def calledAt_def sels)
next
  case (Thenable v)
  show ?thesis
  proof (cases "length sels = 1")
    case True
    with Thenable show ?thesis
      by (cases v) (simp_all add: mapSelections_byIndex_def calledAt_def sels)
  next
    case False
    let ?rs = "map (\<lambda>i. settled (f i (at sels i) (document ctx))) (0 # [1..<length sels])"
    have "outcomeValue (mapSelections_byIndex f selectionsArg ctx)
        = fold (\<lambda>i acc. case ?rs ! i of Some r \<Rightarrow> acc @ [Value r] | None \<Rightarrow> acc) [0..<length ?rs] []"
      using Thenable False by (simp add: mapSelections_byIndex_def Let_def o_def sels)
    also have "\<dots> = map Value (somes ?rs)" by (rule fold_settled_results)
    finally show ?thesis by (simp add: calledAt_def)
  qed
qed

lemma settled_syncEquivalent: "settled (syncEquivalent f i sel doc) = settled (f i sel doc)"
  by (cases "settled (f i sel doc)") (simp_all add: syncEquivalent_def)

lemma not_isThenable_syncEquivalent: "\<not> isThenable (syncEquivalent f i sel doc)"
  by (cases "settled (f i sel doc)") (simp_all add: syncEquivalent_def)

lemma fold_keep: "fold (\<lambda>i results. results) xs acc = acc"
  by (induction xs) simp_all

lemma setSelections_selections:
  "setSelections (map ESelection ss) ctx
     = (if ss = [] then (Inl EmptySelectionsError, ctx) else committed ss ctx)"
proof -
  have "List.map_filter selectionOf (map ESelection ss) = ss"
    by (induction ss) (simp_all add: List.map_filter_simps)
  moreover have "ENotSelection \<notin> set (map ESelection ss)" by auto
  ultimately show ?thesis
    by (simp add: setSelections_def throwIfNotASelectionArray_def committed_def
          revealSelections_def Let_def)
qed

lemma mapFallbackSelections_values:
  "mapFallbackSelections (map Value vs)
     = (if realSelections vs \<noteq> [] then map ESelection (realSelections vs)
        else map ESelection (fallbackSelections vs))"
proof -
  have r: "map asElement (filter isOtherDefined (map Value vs)) = map ESelection (realSelections vs)"
    by (induction vs rule: realSelections.induct) simp_all
  have f: "map asElement (filter isFallbackArray (map Value vs)) = map ESelection (fallbackSelections vs)"
    by (induction vs rule: fallbackSelections.induct) simp_all
  from r have rl: "length (filter isOtherDefined (map Value vs)) = length (realSelections vs)"
    by (metis length_map)
  from f have fl: "length (filter isFallbackArray (map Value vs)) = length (fallbackSelections vs)"
    by (metis length_map)
  show ?thesis
    unfolding mapFallbackSelections_def Let_def r f rl fl by auto
qed

lemma fold_truthy_selections:
  "\<forall>i\<in>set is. i < length sels \<Longrightarrow>
   fold (\<lambda>i resultingSelections.
           if truthy (P i) then resultingSelections @ [fitemOf (at sels i)]
           else resultingSelections) is acc
     = acc @ map (\<lambda>i. FSelection (sels ! i)) (filter (\<lambda>i. truthy (P i)) is)"
  by (induction "is" arbitrary: acc) (simp_all add: at_def)

lemma filterSelections_byIndex_two_or_more:
  assumes "2 \<le> length sels"
    and "predicate 0 (at sels 0) (document ctx) = PBoolean b"
  shows "filterSelections_byIndex predicate (Some sels) ctx
           = Immediate (map (\<lambda>i. FSelection (sels ! i))
               (filter (\<lambda>i. truthy (predicate i (at sels i) (document ctx))) [0..<length sels]))"
proof -
  have ne: "sels \<noteq> []" and n1: "length sels \<noteq> 1"
    using assms(1) by auto
  have u: "[0..<length sels] = 0 # [1..<length sels]"
    using ne by (simp add: upt_rec)
  have "\<forall>i\<in>set [1..<length sels]. i < length sels" by simp
  from fold_truthy_selections[OF this, of "\<lambda>i. predicate i (at sels i) (document ctx)"]
  show ?thesis
    using assms(2) ne n1 by (simp add: filterSelections_byIndex_def u at_def)
qed

lemma js_rem_nonneg: "0 \<le> a \<Longrightarrow> js_rem a b = a mod \<bar>b\<bar>"
  by (cases "a = 0") (simp_all add: js_rem_def)

lemma js_rem_mod: "0 < b \<Longrightarrow> js_rem a b mod b = a mod b"
proof (cases "0 \<le> a")
  case True
  assume "0 < b"
  with True show ?thesis by (simp add: js_rem_nonneg)
next
  case False
  assume b: "0 < b"
  from False have "js_rem a b = - ((- a) mod b)" using b by (simp add: js_rem_def)
  then show ?thesis by (simp add: mod_minus_eq)
qed

lemma js_rem_bounds: "0 < b \<Longrightarrow> - b < js_rem a b \<and> js_rem a b < b"
proof (cases "0 \<le> a")
  case True
  assume b: "0 < b"
  with True have "js_rem a b = a mod b" by (simp add: js_rem_nonneg)
  with b show ?thesis by (simp add: less_le_trans[of "- b" 0])
next
  case False
  assume b: "0 < b"
  from False have e: "js_rem a b = - ((- a) mod b)" using b by (simp add: js_rem_def)
  have "0 \<le> (- a) mod b" "(- a) mod b < b" using b by simp_all
  with e show ?thesis by linarith
qed

lemma rot_index_inj:
  fixes n :: nat
  assumes "i < n" "j < n" "(int i + b) mod int n = (int j + b) mod int n"
  shows "i = j"
proof -
  from assms(3) have "int n dvd (int i + b) - (int j + b)"
    by (simp only: mod_eq_dvd_iff)
  then have "int n dvd int i - int j" by simp
  then have "int i mod int n = int j mod int n"
    by (simp only: mod_eq_dvd_iff)
  with assms(1,2) show ?thesis by simp
qed

lemma fold_list_update_nth:
  assumes inj: "\<And>i j. i < n \<Longrightarrow> j < n \<Longrightarrow> p i = p j \<Longrightarrow> i = j"
    and bound: "\<And>i. i < n \<Longrightarrow> p i < n"
    and k: "k \<le> n" and len: "length init = n"
  shows "length (fold (\<lambda>i xs. xs[p i := g i]) [0..<k] init) = n
         \<and> (\<forall>i<k. fold (\<lambda>i xs. xs[p i := g i]) [0..<k] init ! p i = g i)"
  using k
proof (induction k)
  case 0
  then show ?case by (simp add: len)
next
  case (Suc k)
  then have IH: "length (fold (\<lambda>i xs. xs[p i := g i]) [0..<k] init) = n"
    "\<forall>i<k. fold (\<lambda>i xs. xs[p i := g i]) [0..<k] init ! p i = g i"
    by simp_all
  have kn: "k < n" using Suc.prems by simp
  show ?case
  proof (intro conjI allI impI)
    show "length (fold (\<lambda>i xs. xs[p i := g i]) [0..<Suc k] init) = n"
      using IH by simp
  next
    fix i assume "i < Suc k"
    show "fold (\<lambda>i xs. xs[p i := g i]) [0..<Suc k] init ! p i = g i"
    proof (cases "i = k")
      case True
      then show ?thesis using IH(1) bound[OF kn] by simp
    next
      case False
      with \<open>i < Suc k\<close> have ik: "i < k" by simp
      then have "i < n" using kn by simp
      with inj[OF this kn] False have "p i \<noteq> p k" by blast
      then show ?thesis using IH(2) ik by simp
    qed
  qed
qed

lemma rotateSelections_nonempty:
  assumes ne: "sels \<noteq> []"
  shows "length (rotateSelections byArg sels) = length sels
      \<and> (\<forall>i<length sels.
            rotateSelections byArg sels ! nat ((int i + byArg) mod int (length sels))
              = Some (sels ! i))
      \<and> (byArg mod int (length sels) = 0 \<longrightarrow> rotateSelections byArg sels = map Some sels)"
proof -
  let ?n = "length sels"
  let ?len = "int ?n"
  let ?by1 = "js_rem byArg ?len + ?len"
  have pos: "0 < ?len" using ne by simp
  note bnd = js_rem_bounds[OF pos, of byArg]
  note cng = js_rem_mod[OF pos, of byArg]
  show ?thesis
  proof (cases "?by1 = ?len")
    case True
    then have z: "js_rem byArg ?len = 0" by simp
    with cng have bz: "byArg mod ?len = 0" by simp
    have r: "rotateSelections byArg sels = map Some sels"
      using True ne by (simp add: rotateSelections_def Let_def)
    have "nat ((int i + byArg) mod ?len) = i" if "i < ?n" for i
    proof -
      have "(int i + byArg) mod ?len = (int i mod ?len + byArg mod ?len) mod ?len"
        by (simp only: mod_add_eq)
      also have "\<dots> = int i" using bz that by simp
      finally show ?thesis by simp
    qed
    with r show ?thesis by simp
  next
    case False
    let ?q = "\<lambda>i. nat ((int i + byArg) mod ?len)"
    let ?g = "\<lambda>i. Some (sels ! i)"
    have idx: "nat (js_rem (int i + ?by1) ?len) = ?q i" for i
    proof -
      have "0 \<le> int i + ?by1" using bnd by linarith
      then have "js_rem (int i + ?by1) ?len = (int i + ?by1) mod ?len"
        using pos by (simp add: js_rem_nonneg)
      also have "\<dots> = (int i + js_rem byArg ?len) mod ?len"
        by (simp add: add.assoc[symmetric])
      also have "\<dots> = (int i + js_rem byArg ?len mod ?len) mod ?len"
        by (simp only: mod_add_right_eq)
      also have "\<dots> = (int i + byArg) mod ?len"
        by (simp only: cng mod_add_right_eq)
      finally show ?thesis by simp
    qed
    have r: "rotateSelections byArg sels
        = fold (\<lambda>i xs. xs[?q i := ?g i]) [0..<?n] (replicate ?n None)"
      using False ne by (simp add: rotateSelections_def Let_def idx)
    have inj: "i = j" if "i < ?n" "j < ?n" "?q i = ?q j" for i j
    proof -
      have "0 \<le> (int i + byArg) mod ?len" "0 \<le> (int j + byArg) mod ?len"
        using pos by simp_all
      with that(3) have "(int i + byArg) mod ?len = (int j + byArg) mod ?len"
        by linarith
      with that(1,2) show ?thesis by (rule rot_index_inj)
    qed
    have bound: "?q i < ?n" for i
    proof -
      have "(int i + byArg) mod ?len < ?len" "0 \<le> (int i + byArg) mod ?len"
        using pos by simp_all
      then show ?thesis by linarith
    qed
    have f: "length (fold (\<lambda>i xs. xs[?q i := ?g i]) [0..<?n] (replicate ?n None)) = ?n
         \<and> (\<forall>i<?n. fold (\<lambda>i xs. xs[?q i := ?g i]) [0..<?n] (replicate ?n None) ! ?q i = ?g i)"
      by (rule fold_list_update_nth[where p = ?q and g = ?g and n = ?n]) (auto intro: inj bound)
    have nz: "byArg mod ?len \<noteq> 0"
    proof
      assume "byArg mod ?len = 0"
      with cng have "js_rem byArg ?len mod ?len = 0" by simp
      then have "?len dvd js_rem byArg ?len" by (simp add: dvd_eq_mod_eq_0)
      then have "?len dvd - js_rem byArg ?len" by simp
      with \<open>?len dvd js_rem byArg ?len\<close> bnd have "js_rem byArg ?len = 0"
        using zdvd_imp_le[of ?len "js_rem byArg ?len"] zdvd_imp_le[of ?len "- js_rem byArg ?len"]
        by linarith
      with False show False by simp
    qed
    from f r nz show ?thesis by simp
  qed
qed

lemma withFallback_uniform:
  assumes "isThenable (hd (textResults f ctx)) \<or> (\<forall>r\<in>set (textResults f ctx). \<not> isThenable r)"
  shows "outcomeValue (withFallback f ctx)
           = (let vs = somes (map settled (textResults f ctx))
              in if realSelections vs \<noteq> [] then committed (realSelections vs) ctx
                 else if fallbackSelections vs \<noteq> [] then committed (fallbackSelections vs) ctx
                 else (Inl EmptySelectionsError, ctx))"
proof -
  let ?F = "\<lambda>i sel doc. f (getText doc sel) sel i"
  have u: "isThenable (?F 0 (at (selections ctx) 0) (document ctx))
           \<or> (\<forall>i\<in>set (calledAt (selections ctx)).
                 \<not> isThenable (?F i (at (selections ctx) i) (document ctx)))"
    using assms by (simp add: textResults_def calledAt_def)
  have arr: "outcomeValue (mapSelections f None ctx)
      = map Value (somes (map settled (textResults f ctx)))"
    unfolding mapSelections_def
    using mapSelections_byIndex_array[where selectionsArg = None and ctx = ctx
        and sels = "selections ctx" and f = ?F, OF _ u]
    by (simp add: textResults_def o_def)
  have "outcomeValue (withFallback f ctx)
      = setSelections (mapFallbackSelections (outcomeValue (mapSelections f None ctx))) ctx"
    by (cases "mapSelections f None ctx") (simp_all add: withFallback_def)
  then show ?thesis
    by (simp add: arr mapFallbackSelections_values setSelections_selections Let_def)
qed

lemma fold_defined_results:
  "fold (\<lambda>i results. case F i of Undefined \<Rightarrow> results | v \<Rightarrow> results @ [v]) is acc
     = acc @ filter isDefined (map F is)"
proof (induction "is" arbitrary: acc)
  case Nil
  then show ?case by simp
next
  case (Cons i "is")
  then show ?case by (cases "F i") simp_all
qed

text \<open>When the call at index 0 returns immediately, the array holds every result
  that is not \<open>undefined\<close> as it was returned, suspended results included.\<close>

lemma mapSelections_byIndex_first_immediate:
  fixes f :: "nat \<Rightarrow> selection option \<Rightarrow> document \<Rightarrow> 'a mresult"
  assumes sels: "(case selectionsArg of None \<Rightarrow> selections ctx | Some xs \<Rightarrow> xs) = sels"
    and imm: "\<not> isThenable (f 0 (at sels 0) (document ctx))"
  shows "mapSelections_byIndex f selectionsArg ctx
           = Immediate (filter isDefined
               (map (\<lambda>i. f i (at sels i) (document ctx)) (calledAt sels)))"
proof (cases "f 0 (at sels 0) (document ctx)")
  case Undefined
  then show ?thesis
    using fold_defined_results[of "\<lambda>i. f i (at sels i) (document ctx)" "[1..<length sels]" "[]"]
    by (simp add: mapSelections_byIndex_def calledAt_def sels)
next
  case (Value x)
  then show ?thesis
    using fold_defined_results[of "\<lambda>i. f i (at sels i) (document ctx)" "[1..<length sels]" "[Value x]"]
    by (simp add: mapSelections_byIndex_def calledAt_def sels)
next
  case (Thenable v)
  with imm show ?thesis by simp
qed

lemma withFallback_later_suspended:
  assumes imm: "\<not> isThenable (hd (textResults f ctx))"
    and later: "\<exists>r\<in>set (textResults f ctx). isThenable r"
  shows "withFallback f ctx = Immediate (Inl NotASelectionError, ctx)"
proof -
  let ?F = "\<lambda>i sel doc. f (getText doc sel) sel i"
  let ?arr = "filter isDefined (textResults f ctx)"
  have i0: "\<not> isThenable (?F 0 (at (selections ctx) 0) (document ctx))"
    using imm by (simp add: textResults_def calledAt_def)
  have arr: "mapSelections f None ctx = Immediate ?arr"
    unfolding mapSelections_def
    using mapSelections_byIndex_first_immediate[where selectionsArg = None and ctx = ctx
        and sels = "selections ctx" and f = ?F, OF _ i0]
    by (simp add: textResults_def)
  from later obtain r where r: "r \<in> set (textResults f ctx)" "isThenable r" by blast
  from r(2) obtain v where rv: "r = Thenable v" by (cases r) simp_all
  with r have rin: "Thenable v \<in> set (filter isOtherDefined ?arr)" by simp
  then have ne: "filter isOtherDefined ?arr \<noteq> []" by (metis empty_iff empty_set)
  from rin have "asElement (Thenable v) \<in> set (map asElement (filter isOtherDefined ?arr))"
    unfolding set_map by (rule imageI)
  then have bad: "ENotSelection \<in> set (map asElement (filter isOtherDefined ?arr))" by simp
  have m: "mapFallbackSelections ?arr = map asElement (filter isOtherDefined ?arr)"
    using ne by (simp add: mapFallbackSelections_def Let_def)
  have "setSelections (mapFallbackSelections ?arr) ctx = (Inl NotASelectionError, ctx)"
    using bad ne unfolding m by (simp add: setSelections_def throwIfNotASelectionArray_def)
  with arr show ?thesis by (simp add: withFallback_def)
qed

text \<open>An empty selection of the document that is not at the end of the buffer comes
  back from character mode with its anchor and a different active position.\<close>

lemma characterMode_roundTrip_empty_extends:
  assumes v: "validSelection d s" and e: "isEmpty s" and n: "active s \<noteq> lastPosition d"
  shows "\<exists>t. roundTrip [s] d = Some [t] \<and> anchor t = anchor s \<and> active t \<noteq> active s
             \<and> roundTrip [s] d \<noteq> Some [s]"
proof -
  from e have eq: "line (anchor s) = line (active s)" "character (anchor s) = character (active s)"
    by (simp_all add: isEmpty_def isEqual_def)
  from v have lb: "line (active s) < length (lineTexts d)"
    and cb: "character (active s) \<le> length (lineTexts d ! line (active s))"
    by (simp_all add: validSelection_def validPosition_def lineCount_def)
  have t: "toCharacterMode1 d s = Some s"
    using eq by (simp add: toCharacterMode1_def Let_def)
  show ?thesis
  proof (cases "character (active s) = length (lineTexts d ! line (active s))")
    case False
    let ?t = "\<lparr>anchor = anchor s,
               active = \<lparr>line = line (active s), character = character (active s) + 1\<rparr>\<rparr>"
    have f: "fromCharacterMode1 d s = Some ?t"
      using eq lb False by (simp add: fromCharacterMode1_def Let_def lineAt_def)
    have d: "active ?t \<noteq> active s"
    proof
      assume "active ?t = active s"
      then have "character (active ?t) = character (active s)" by simp
      then show False by simp
    qed
    have "?t \<noteq> s"
    proof
      assume "?t = s"
      then have "active ?t = active s" by (rule arg_cong[of _ _ active])
      with d show False by contradiction
    qed
    then have ns: "Some [?t] \<noteq> Some [s]" by simp
    have rt: "roundTrip [s] d = Some [?t]"
      using t f by (simp add: roundTrip_def toCharacterMode_def fromCharacterMode_def)
    have an: "anchor ?t = anchor s" by simp
    from rt an d ns show ?thesis by (metis (no_types))
  next
    case True
    have ne: "lineTexts d \<noteq> []" using lb by auto
    have "line (active s) \<noteq> length (lineTexts d) - 1"
    proof
      assume l: "line (active s) = length (lineTexts d) - 1"
      with True ne have "character (active s) = length (last (lineTexts d))"
        by (simp add: last_conv_nth)
      with l have "active s = lastPosition d"
        by (simp add: lastPosition_def lineCount_def)
      with n show False by simp
    qed
    with lb have nl: "line (active s) + 1 < lineCount d" by (simp add: lineCount_def)
    let ?t = "\<lparr>anchor = anchor s, active = \<lparr>line = line (active s) + 1, character = 0\<rparr>\<rparr>"
    have f: "fromCharacterMode1 d s = Some ?t"
      using eq lb True nl by (simp add: fromCharacterMode1_def Let_def lineAt_def)
    have d: "active ?t \<noteq> active s"
    proof
      assume "active ?t = active s"
      then have "line (active ?t) = line (active s)" by simp
      then show False by simp
    qed
    have "?t \<noteq> s"
    proof
      assume "?t = s"
      then have "active ?t = active s" by (rule arg_cong[of _ _ active])
      with d show False by contradiction
    qed
    then have ns: "Some [?t] \<noteq> Some [s]" by simp
    have rt: "roundTrip [s] d = Some [?t]"
      using t f by (simp add: roundTrip_def toCharacterMode_def fromCharacterMode_def)
    have an: "anchor ?t = anchor s" by simp
    from rt an d ns show ?thesis by (metis (no_types))
  qed
qed

section \<open>The end of a selection\<close>

text \<open>
  C9. A non-empty selection whose end is at character 0 of a line strictly after its
  start line has \<open>endLine = end.line - 1\<close>, and \<open>endPosition\<close> is the end of the text
  of that previous line (the call throws only if that line is not in the document, and
  it is whenever the end line is). For every other selection, empty ones included,
  \<open>endLine\<close> is \<open>end.line\<close> and \<open>endPosition\<close> is \<open>end\<close>.
\<close>

theorem endLine_endPosition_contract:
  "(\<not> isEmpty sel \<and> character (end_pos sel) = 0 \<and> line (start sel) < line (end_pos sel) \<longrightarrow>
      endLine sel = line (end_pos sel) - 1
      \<and> endPosition sel d =
          map_option (\<lambda>t. \<lparr>line = line (end_pos sel) - 1, character = length t\<rparr>)
            (lineAt d (line (end_pos sel) - 1))
      \<and> (line (end_pos sel) < lineCount d \<longrightarrow>
           endPosition sel d =
             Some \<lparr>line = line (end_pos sel) - 1,
                   character = length (lineTexts d ! (line (end_pos sel) - 1))\<rparr>))
   \<and> (\<not> (\<not> isEmpty sel \<and> character (end_pos sel) = 0 \<and> line (start sel) < line (end_pos sel)) \<longrightarrow>
      endLine sel = line (end_pos sel) \<and> endPosition sel d = Some (end_pos sel))"
proof -
  have ord: "line (start sel) \<le> line (end_pos sel)"
    by (auto simp: start_def end_pos_def isBefore_def)
  have emp: "isEmpty sel \<Longrightarrow> line (start sel) = line (end_pos sel)"
    by (auto simp: start_def end_pos_def isBefore_def isEmpty_def isEqual_def)
  show ?thesis
    using ord emp
    by (auto simp: endLine_def endPosition_def Let_def lineAt_def lineCount_def split: option.splits)
qed

theorem endLine_endPosition_contract_witness:
  "endLine \<lparr>anchor = \<lparr>line = 0, character = 1\<rparr>, active = \<lparr>line = 1, character = 0\<rparr>\<rparr> = 0
   \<and> endPosition \<lparr>anchor = \<lparr>line = 0, character = 1\<rparr>, active = \<lparr>line = 1, character = 0\<rparr>\<rparr>
        \<lparr>lineTexts = [''ab'', ''c''], getText = noText\<rparr> = Some \<lparr>line = 0, character = 2\<rparr>
   \<and> endLine \<lparr>anchor = \<lparr>line = 1, character = 0\<rparr>, active = \<lparr>line = 1, character = 0\<rparr>\<rparr> = 1
   \<and> endPosition \<lparr>anchor = \<lparr>line = 1, character = 0\<rparr>, active = \<lparr>line = 1, character = 0\<rparr>\<rparr>
        \<lparr>lineTexts = [''ab'', ''c''], getText = noText\<rparr> = Some \<lparr>line = 1, character = 0\<rparr>"
  using endLine_endPosition_contract
          [of "\<lparr>anchor = \<lparr>line = 0, character = 1\<rparr>, active = \<lparr>line = 1, character = 0\<rparr>\<rparr>"
              "\<lparr>lineTexts = [''ab'', ''c''], getText = noText\<rparr>"]
        endLine_endPosition_contract
          [of "\<lparr>anchor = \<lparr>line = 1, character = 0\<rparr>, active = \<lparr>line = 1, character = 0\<rparr>\<rparr>"
              "\<lparr>lineTexts = [''ab'', ''c''], getText = noText\<rparr>"]
  by (simp add: isEmpty_def isEqual_def start_def end_pos_def isBefore_def lineCount_def lineAt_def)

section \<open>Mode translator\<close>

text \<open>
  C10. \<open>fromCharacterMode\<close> returns for every selection lying in the document, and
  every selection it returns has the anchor of the input selection at the same index:
  only the active position may differ.
\<close>

theorem fromCharacterMode_keeps_anchor:
  "((\<forall>s\<in>set sels. validSelection d s) \<longrightarrow> (\<exists>out. fromCharacterMode sels d = Some out))
   \<and> (\<forall>out. fromCharacterMode sels d = Some out \<longrightarrow>
          length out = length sels
          \<and> (\<forall>i<length sels. anchor (out ! i) = anchor (sels ! i)))"
proof -
  have total: "\<exists>out. fromCharacterMode sels d = Some out"
    if "\<forall>s\<in>set sels. validSelection d s"
  proof -
    from that have "\<forall>s\<in>set sels. \<exists>t. fromCharacterMode1 d s = Some t"
      by (auto simp: validSelection_def validPosition_def intro: fromCharacterMode1_total)
    then show ?thesis
      unfolding fromCharacterMode_def by (rule mapThrowing_total)
  qed
  have frame: "length out = length sels \<and> (\<forall>i<length sels. anchor (out ! i) = anchor (sels ! i))"
    if "fromCharacterMode sels d = Some out" for out
  proof -
    from that have "length out = length sels
        \<and> (\<forall>i<length sels. fromCharacterMode1 d (sels ! i) = Some (out ! i))"
      unfolding fromCharacterMode_def by (rule mapThrowing_Some_map)
    then show ?thesis
      by (auto dest: fromCharacterMode1_anchor)
  qed
  from total frame show ?thesis by blast
qed

theorem fromCharacterMode_keeps_anchor_witness:
  "fromCharacterMode [\<lparr>anchor = \<lparr>line = 0, character = 0\<rparr>, active = \<lparr>line = 0, character = 1\<rparr>\<rparr>]
      \<lparr>lineTexts = [''ab''], getText = noText\<rparr>
     = Some [\<lparr>anchor = \<lparr>line = 0, character = 0\<rparr>, active = \<lparr>line = 0, character = 2\<rparr>\<rparr>]
   \<and> anchor ([\<lparr>anchor = \<lparr>line = 0, character = 0\<rparr>, active = \<lparr>line = 0, character = 2\<rparr>\<rparr>] ! 0)
     = anchor ([\<lparr>anchor = \<lparr>line = 0, character = 0\<rparr>, active = \<lparr>line = 0, character = 1\<rparr>\<rparr>] ! 0)"
proof -
  let ?sels = "[\<lparr>anchor = \<lparr>line = 0, character = 0\<rparr>, active = \<lparr>line = 0, character = 1\<rparr>\<rparr>]"
  let ?d = "\<lparr>lineTexts = [''ab''], getText = noText\<rparr>"
  let ?out = "[\<lparr>anchor = \<lparr>line = 0, character = 0\<rparr>, active = \<lparr>line = 0, character = 2\<rparr>\<rparr>]"
  have v: "\<forall>s\<in>set ?sels. validSelection ?d s"
    by (simp add: validSelection_def validPosition_def lineCount_def)
  have e: "fromCharacterMode ?sels ?d = Some ?out"
    by (simp add: fromCharacterMode_def fromCharacterMode1_def lineAt_def lineCount_def)
  from fromCharacterMode_keeps_anchor[of ?sels ?d] v e show ?thesis by simp
qed

text \<open>
  C2, as amended. For every document and every list of non-empty forward-facing
  selections lying in the document, wherever they end, converting to character mode and
  back returns the list itself.
\<close>

theorem characterMode_roundTrip_forward:
  assumes "\<forall>s\<in>set sels. validSelection d s \<and> isBefore (anchor s) (active s)"
  shows "roundTrip sels d = Some sels"
proof -
  from assms have "\<forall>s\<in>set sels. \<exists>c. toCharacterMode1 d s = Some c \<and> fromCharacterMode1 d c = Some s"
    by (auto intro: roundTrip1)
  then obtain cs where "mapThrowing (toCharacterMode1 d) sels = Some cs"
      and "mapThrowing (fromCharacterMode1 d) cs = Some sels"
    using mapThrowing_roundTrip by blast
  then show ?thesis
    by (simp add: roundTrip_def toCharacterMode_def fromCharacterMode_def)
qed

theorem characterMode_roundTrip_forward_witness:
  "roundTrip [\<lparr>anchor = \<lparr>line = 0, character = 0\<rparr>, active = \<lparr>line = 1, character = 0\<rparr>\<rparr>]
        \<lparr>lineTexts = [''abc'', ''d''], getText = noText\<rparr>
     = Some [\<lparr>anchor = \<lparr>line = 0, character = 0\<rparr>, active = \<lparr>line = 1, character = 0\<rparr>\<rparr>]"
proof -
  let ?s = "\<lparr>anchor = \<lparr>line = 0, character = 0\<rparr>, active = \<lparr>line = 1, character = 0\<rparr>\<rparr>"
  let ?d = "\<lparr>lineTexts = [''abc'', ''d''], getText = noText\<rparr>"
  have "\<forall>s\<in>set [?s]. validSelection ?d s \<and> isBefore (anchor s) (active s)"
    by (simp add: validSelection_def validPosition_def lineCount_def isBefore_def)
  then show ?thesis by (rule characterMode_roundTrip_forward)
qed

text \<open>
  C2 as stated fails for an empty selection: in the one-line document \<open>ab\<close> the empty
  selection at (0, 0) is not at the end of the buffer, \<open>toCharacterMode\<close> leaves it
  alone and \<open>fromCharacterMode\<close> extends it by one character.
\<close>

theorem characterMode_roundTrip_empty_counterexample:
  "isEmpty \<lparr>anchor = \<lparr>line = 0, character = 0\<rparr>, active = \<lparr>line = 0, character = 0\<rparr>\<rparr>
   \<and> validSelection \<lparr>lineTexts = [''ab''], getText = noText\<rparr>
        \<lparr>anchor = \<lparr>line = 0, character = 0\<rparr>, active = \<lparr>line = 0, character = 0\<rparr>\<rparr>
   \<and> end_pos \<lparr>anchor = \<lparr>line = 0, character = 0\<rparr>, active = \<lparr>line = 0, character = 0\<rparr>\<rparr>
        \<noteq> lastPosition \<lparr>lineTexts = [''ab''], getText = noText\<rparr>
   \<and> roundTrip [\<lparr>anchor = \<lparr>line = 0, character = 0\<rparr>, active = \<lparr>line = 0, character = 0\<rparr>\<rparr>]
        \<lparr>lineTexts = [''ab''], getText = noText\<rparr>
       = Some [\<lparr>anchor = \<lparr>line = 0, character = 0\<rparr>, active = \<lparr>line = 0, character = 1\<rparr>\<rparr>]
   \<and> roundTrip [\<lparr>anchor = \<lparr>line = 0, character = 0\<rparr>, active = \<lparr>line = 0, character = 0\<rparr>\<rparr>]
        \<lparr>lineTexts = [''ab''], getText = noText\<rparr>
       \<noteq> Some [\<lparr>anchor = \<lparr>line = 0, character = 0\<rparr>, active = \<lparr>line = 0, character = 0\<rparr>\<rparr>]"
  by (simp add: isEmpty_def isEqual_def validSelection_def validPosition_def lineCount_def
        end_pos_def isBefore_def lastPosition_def roundTrip_def toCharacterMode_def
        fromCharacterMode_def toCharacterMode1_def fromCharacterMode1_def lineAt_def Let_def)

section \<open>Merge and normalize engine\<close>

text \<open>
  C1. The claim fails on the code. The accumulator is the empty selection at (0, 5);
  the only candidate is the non-empty selection from (0, 0) to (0, 2), which ends before
  the accumulator and so does not contain it. The test of the code is
  \<open>bStart.isBeforeOrEqual(aStart) && bEnd.isAfterOrEqual(bStart)\<close>, whose second half
  always holds: the accumulator adopts the span of the candidate and is missing from
  the output.
\<close>

theorem merge_empty_absorbed_by_earlier_selection:
  "isEmpty (empty_at 0 5)
   \<and> \<not> isEmpty (fromAnchorActive 0 0 0 2)
   \<and> \<not> isBeforeOrEqual (start (empty_at 0 5)) (end_pos (fromAnchorActive 0 0 0 2))
   \<and> map span (mergeOverlappingSelections [empty_at 0 5, fromAnchorActive 0 0 0 2] False)
       = [span (fromAnchorActive 0 0 0 2)]
   \<and> empty_at 0 5 \<notin> set (mergeOverlappingSelections [empty_at 0 5, fromAnchorActive 0 0 0 2] False)"
  by code_simp

text \<open>
  C7. The claim fails on the code in both modes. An empty accumulator that is absorbed
  into a candidate does not look again at the selections it has skipped, so the output
  of the first merge still holds selections that overlap (or touch, in the consecutive
  mode), and a second merge changes it.
\<close>

theorem merge_not_idempotent:
  "map span (mergeOverlappingSelections
       [empty_at 0 5, fromAnchorActive 0 6 0 8, fromAnchorActive 0 4 0 7] False)
     = [span (fromAnchorActive 0 4 0 7), span (fromAnchorActive 0 6 0 8)]
   \<and> map span (mergeOverlappingSelections
       (mergeOverlappingSelections
          [empty_at 0 5, fromAnchorActive 0 6 0 8, fromAnchorActive 0 4 0 7] False) False)
     = [span (fromAnchorActive 0 4 0 8)]
   \<and> mergeOverlappingSelections
       (mergeOverlappingSelections
          [empty_at 0 5, fromAnchorActive 0 6 0 8, fromAnchorActive 0 4 0 7] False) False
     \<noteq> mergeOverlappingSelections
          [empty_at 0 5, fromAnchorActive 0 6 0 8, fromAnchorActive 0 4 0 7] False
   \<and> map span (mergeConsecutive [empty_at 0 5, empty_at 0 3, fromAnchorActive 0 3 0 5])
     = [span (fromAnchorActive 0 3 0 5), span (empty_at 0 3)]
   \<and> map span (mergeConsecutive
       (mergeConsecutive [empty_at 0 5, empty_at 0 3, fromAnchorActive 0 3 0 5]))
     = [span (fromAnchorActive 0 3 0 5)]
   \<and> mergeConsecutive (mergeConsecutive [empty_at 0 5, empty_at 0 3, fromAnchorActive 0 3 0 5])
     \<noteq> mergeConsecutive [empty_at 0 5, empty_at 0 3, fromAnchorActive 0 3 0 5]"
  by code_simp

section \<open>Batch transform runner\<close>

text \<open>
  C3. The claim fails on the code for a list of one selection: with a synchronous
  predicate that returns \<open>true\<close> the code returns \<open>[firstResult]\<close>, an array holding the
  boolean, and not the selection. The suspending path on the same input returns the
  selection, and so does the synchronous path on two selections.
\<close>

theorem filter_single_selection_returns_boolean:
  "filterSelections_byIndex (\<lambda>i sel doc. PBoolean True) (Some [s]) ctx = Immediate [FBoolean True]
   \<and> filterSelections_byIndex (\<lambda>i sel doc. PBoolean True) (Some [s]) ctx \<noteq> Immediate [FSelection s]
   \<and> filterSelections_byIndex (\<lambda>i sel doc. PThenable True) (Some [s]) ctx = Suspended [FSelection s]
   \<and> filterSelections_byIndex (\<lambda>i sel doc. PBoolean True) (Some [s, t]) ctx
       = Immediate [FSelection s, FSelection t]"
  by (simp add: filterSelections_byIndex_def at_def)

text \<open>
  C4, as amended. When the call at index 0 returns a suspended result, whatever the
  later calls return, the array of \<open>mapSelections.byIndex\<close> is the array that it
  returns for the all-synchronous equivalent function.
\<close>

theorem mapSelections_byIndex_first_suspended:
  fixes f :: "nat \<Rightarrow> selection option \<Rightarrow> document \<Rightarrow> 'a mresult"
  assumes "isThenable (f 0 (at sels 0) (document ctx))"
  shows "outcomeValue (mapSelections_byIndex f (Some sels) ctx)
           = outcomeValue (mapSelections_byIndex (syncEquivalent f) (Some sels) ctx)"
proof -
  have a: "outcomeValue (mapSelections_byIndex f (Some sels) ctx)
      = map Value (somes (map (\<lambda>i. settled (f i (at sels i) (document ctx))) (calledAt sels)))"
    using assms by (intro mapSelections_byIndex_array) simp_all
  have b: "outcomeValue (mapSelections_byIndex (syncEquivalent f) (Some sels) ctx)
      = map Value (somes (map (\<lambda>i. settled (syncEquivalent f i (at sels i) (document ctx)))
                            (calledAt sels)))"
    by (intro mapSelections_byIndex_array) (simp_all add: not_isThenable_syncEquivalent)
  from a b show ?thesis by (simp add: settled_syncEquivalent)
qed

theorem mapSelections_byIndex_first_suspended_witness:
  "isThenable ((\<lambda>i sel doc. if i = 0 then Thenable (Some (1::nat)) else Value 2) 0
       (at [empty_at 0 0, empty_at 0 1] 0)
       (document (exampleContext [empty_at 0 0, empty_at 0 1])))
   \<and> outcomeValue (mapSelections_byIndex
         (\<lambda>i sel doc. if i = 0 then Thenable (Some (1::nat)) else Value 2)
         (Some [empty_at 0 0, empty_at 0 1]) (exampleContext [empty_at 0 0, empty_at 0 1]))
       = [Value 1, Value 2]
   \<and> outcomeValue (mapSelections_byIndex
         (syncEquivalent (\<lambda>i sel doc. if i = 0 then Thenable (Some (1::nat)) else Value 2))
         (Some [empty_at 0 0, empty_at 0 1]) (exampleContext [empty_at 0 0, empty_at 0 1]))
       = [Value 1, Value 2]"
proof -
  let ?f = "\<lambda>(i::nat) (sel::selection option) (doc::document).
              if i = 0 then Thenable (Some (1::nat)) else Value 2"
  let ?sels = "[empty_at 0 0, empty_at 0 1]"
  have h: "isThenable (?f 0 (at ?sels 0) (document (exampleContext ?sels)))" by simp
  have e: "outcomeValue (mapSelections_byIndex (syncEquivalent ?f) (Some ?sels)
             (exampleContext ?sels)) = [Value 1, Value 2]"
    by (simp add: mapSelections_byIndex_def syncEquivalent_def)
  from mapSelections_byIndex_first_suspended[of ?f ?sels "exampleContext ?sels", OF h] e h
  show ?thesis by simp
qed

text \<open>
  C4 as stated fails when the call at index 0 returns immediately and a later call
  returns a suspended result: the code has taken the synchronous path, and the thenable
  itself is an element of the array.
\<close>

theorem mapSelections_byIndex_mixed_counterexample:
  "outcomeValue (mapSelections_byIndex
       (\<lambda>i sel doc. if i = 0 then Value (1::nat) else Thenable (Some 2))
       (Some [empty_at 0 0, empty_at 0 1])
       \<lparr>document = \<lparr>lineTexts = [''ab''], getText = noText\<rparr>,
        selections = [empty_at 0 0, empty_at 0 1], revealed = None\<rparr>)
     = [Value 1, Thenable (Some 2)]
   \<and> outcomeValue (mapSelections_byIndex
       (syncEquivalent (\<lambda>i sel doc. if i = 0 then Value (1::nat) else Thenable (Some 2)))
       (Some [empty_at 0 0, empty_at 0 1])
       \<lparr>document = \<lparr>lineTexts = [''ab''], getText = noText\<rparr>,
        selections = [empty_at 0 0, empty_at 0 1], revealed = None\<rparr>)
     = [Value 1, Value 2]"
  by (simp add: mapSelections_byIndex_def syncEquivalent_def at_def)

text \<open>
  C5. \<open>updateSelections\<close> with a synchronous mapper that returns \<open>undefined\<close> for every
  selection throws \<open>EmptySelectionsError\<close> and leaves the targeted context as it was,
  whatever the number of its selections; the witness is a context with one selection.
\<close>

theorem updateSelections_all_absent_rejected:
  "updateSelections (\<lambda>text sel i. Undefined) contextArg current
     = Immediate (Inl EmptySelectionsError,
                  (case contextArg of None \<Rightarrow> current | Some c \<Rightarrow> c))"
  using setSelections_selections[of "[]"]
  by (simp add: updateSelections_def mapSelections_def mapSelections_byIndex_def fold_keep)

theorem updateSelections_all_absent_rejected_witness:
  "selections (exampleContext [fromAnchorActive 0 0 0 3]) = [fromAnchorActive 0 0 0 3]
   \<and> updateSelections (\<lambda>text sel i. Undefined) None (exampleContext [fromAnchorActive 0 0 0 3])
       = Immediate (Inl EmptySelectionsError, exampleContext [fromAnchorActive 0 0 0 3])"
  using updateSelections_all_absent_rejected[of None "exampleContext [fromAnchorActive 0 0 0 3]"]
  by (simp add: exampleContext_def)

text \<open>
  C6, as amended. When every result is immediate, or the result at index 0 is
  suspended, \<open>withFallback\<close> commits exactly the real selections in input order when
  there is one, otherwise exactly the fallback selections in input order when there is
  one, and otherwise throws \<open>EmptySelectionsError\<close> and leaves the context as it was.
  When the result at index 0 is immediate and a later result is suspended, the call
  throws \<open>NotASelectionError\<close> and leaves the context as it was.
\<close>

theorem withFallback_commit:
  "(isThenable (hd (textResults f ctx)) \<or> (\<forall>r\<in>set (textResults f ctx). \<not> isThenable r) \<longrightarrow>
      outcomeValue (withFallback f ctx)
        = (let vs = somes (map settled (textResults f ctx))
           in if realSelections vs \<noteq> [] then committed (realSelections vs) ctx
              else if fallbackSelections vs \<noteq> [] then committed (fallbackSelections vs) ctx
              else (Inl EmptySelectionsError, ctx)))
   \<and> (\<not> isThenable (hd (textResults f ctx)) \<and> (\<exists>r\<in>set (textResults f ctx). isThenable r) \<longrightarrow>
      withFallback f ctx = Immediate (Inl NotASelectionError, ctx))"
  using withFallback_uniform[of f ctx] withFallback_later_suspended[of f ctx] by blast

theorem withFallback_commit_witness:
  "outcomeValue (withFallback
       (\<lambda>text sel i. if i = 0 then Value (Fallback (empty_at 0 0)) else Undefined)
       (exampleContext [fromAnchorActive 0 0 0 3, fromAnchorActive 0 4 0 7]))
     = committed [empty_at 0 0] (exampleContext [fromAnchorActive 0 0 0 3, fromAnchorActive 0 4 0 7])
   \<and> outcomeValue (withFallback
       (\<lambda>text sel i. if i = 0 then Thenable (Some (Fallback (empty_at 0 0)))
                     else Value (Sel (empty_at 0 4)))
       (exampleContext [fromAnchorActive 0 0 0 3, fromAnchorActive 0 4 0 7]))
     = committed [empty_at 0 4] (exampleContext [fromAnchorActive 0 0 0 3, fromAnchorActive 0 4 0 7])
   \<and> withFallback
       (\<lambda>text sel i. if i = 0 then Value (Sel (empty_at 0 0))
                     else Thenable (Some (Sel (empty_at 0 4))))
       (exampleContext [fromAnchorActive 0 0 0 3, fromAnchorActive 0 4 0 7])
     = Immediate (Inl NotASelectionError,
                  exampleContext [fromAnchorActive 0 0 0 3, fromAnchorActive 0 4 0 7])"
proof -
  let ?ctx = "exampleContext [fromAnchorActive 0 0 0 3, fromAnchorActive 0 4 0 7]"
  let ?f = "\<lambda>(text::string) (sel::selection option) (i::nat).
              if i = 0 then Value (Fallback (empty_at 0 0)) else Undefined"
  let ?g = "\<lambda>(text::string) (sel::selection option) (i::nat).
              if i = 0 then Thenable (Some (Fallback (empty_at 0 0)))
              else Value (Sel (empty_at 0 4))"
  let ?h = "\<lambda>(text::string) (sel::selection option) (i::nat).
              if i = 0 then Value (Sel (empty_at 0 0))
              else Thenable (Some (Sel (empty_at 0 4)))"
  have tf: "textResults ?f ?ctx = [Value (Fallback (empty_at 0 0)), Undefined]"
    by (simp add: textResults_def calledAt_def exampleContext_def)
  have tg: "textResults ?g ?ctx
      = [Thenable (Some (Fallback (empty_at 0 0))), Value (Sel (empty_at 0 4))]"
    by (simp add: textResults_def calledAt_def exampleContext_def)
  have th: "textResults ?h ?ctx
      = [Value (Sel (empty_at 0 0)), Thenable (Some (Sel (empty_at 0 4)))]"
    by (simp add: textResults_def calledAt_def exampleContext_def)
  from withFallback_commit[of ?f ?ctx] withFallback_commit[of ?g ?ctx]
       withFallback_commit[of ?h ?ctx]
  show ?thesis
    by (simp add: tf tg th)
qed

text \<open>
  C6 as stated fails when the result at index 0 is an immediate fallback and a later
  result is a suspended fallback: no result is a real selection and both are
  fallbacks, yet the code has taken the synchronous path, counts the thenable as a
  real selection and throws \<open>NotASelectionError\<close>: it neither commits the fallbacks
  nor fails with the empty-set error.
\<close>

theorem withFallback_mixed_counterexample:
  "realSelections (somes (map settled (textResults mixedFallbacks
       (exampleContext [fromAnchorActive 0 0 0 3, fromAnchorActive 0 4 0 7])))) = []
   \<and> fallbackSelections (somes (map settled (textResults mixedFallbacks
       (exampleContext [fromAnchorActive 0 0 0 3, fromAnchorActive 0 4 0 7]))))
       = [empty_at 0 0, empty_at 0 4]
   \<and> withFallback mixedFallbacks
        (exampleContext [fromAnchorActive 0 0 0 3, fromAnchorActive 0 4 0 7])
       = Immediate (Inl NotASelectionError,
                    exampleContext [fromAnchorActive 0 0 0 3, fromAnchorActive 0 4 0 7])
   \<and> outcomeValue (withFallback mixedFallbacks
        (exampleContext [fromAnchorActive 0 0 0 3, fromAnchorActive 0 4 0 7]))
       \<noteq> committed [empty_at 0 0, empty_at 0 4]
            (exampleContext [fromAnchorActive 0 0 0 3, fromAnchorActive 0 4 0 7])
   \<and> outcomeValue (withFallback mixedFallbacks
        (exampleContext [fromAnchorActive 0 0 0 3, fromAnchorActive 0 4 0 7]))
       \<noteq> (Inl EmptySelectionsError,
            exampleContext [fromAnchorActive 0 0 0 3, fromAnchorActive 0 4 0 7])"
  by (simp add: textResults_def calledAt_def exampleContext_def mixedFallbacks_def
        withFallback_def mapSelections_def mapSelections_byIndex_def at_def
        mapFallbackSelections_def setSelections_def throwIfNotASelectionArray_def
        committed_def)

section \<open>Ordering utilities\<close>

text \<open>
  C8. For a non-empty list of length N and an integer \<open>by\<close>, \<open>rotateSelections\<close> returns
  a list of length N in which the selection of index i is at index (i + by) mod N, and
  a copy of the input when \<open>by\<close> is a multiple of N; rotating [A, B, C] by 1 gives
  [C, A, B] and by -1 gives [B, C, A].
\<close>

theorem rotateSelections_contract:
  "(sels \<noteq> [] \<longrightarrow>
      length (rotateSelections byArg sels) = length sels
      \<and> (\<forall>i<length sels.
            rotateSelections byArg sels ! nat ((int i + byArg) mod int (length sels))
              = Some (sels ! i))
      \<and> (byArg mod int (length sels) = 0 \<longrightarrow> rotateSelections byArg sels = map Some sels))
   \<and> rotateSelections 1 [A, B, C] = [Some C, Some A, Some B]
   \<and> rotateSelections (- 1) [A, B, C] = [Some B, Some C, Some A]"
proof -
  have e1: "rotateSelections 1 [A, B, C] = [Some C, Some A, Some B]"
    by (simp add: rotateSelections_def js_rem_def upt_rec)
  have e2: "rotateSelections (- 1) [A, B, C] = [Some B, Some C, Some A]"
    by (simp add: rotateSelections_def js_rem_def upt_rec)
  from rotateSelections_nonempty[of sels byArg] e1 e2 show ?thesis by blast
qed

theorem rotateSelections_contract_witness:
  "rotateSelections 4 [empty_at 0 0, empty_at 0 1, empty_at 0 2]
     = [Some (empty_at 0 2), Some (empty_at 0 0), Some (empty_at 0 1)]
   \<and> rotateSelections 4 [empty_at 0 0, empty_at 0 1, empty_at 0 2] ! nat ((int 0 + 4) mod 3)
     = Some ([empty_at 0 0, empty_at 0 1, empty_at 0 2] ! 0)
   \<and> rotateSelections (- 3) [empty_at 0 0, empty_at 0 1, empty_at 0 2]
     = map Some [empty_at 0 0, empty_at 0 1, empty_at 0 2]"
  using rotateSelections_contract[of "[empty_at 0 0, empty_at 0 1, empty_at 0 2]" 4]
        rotateSelections_contract[of "[empty_at 0 0, empty_at 0 1, empty_at 0 2]" "- 3"]
  by (simp add: rotateSelections_def js_rem_def upt_rec)

end
